theory Spec2Isabelle
  imports Complex_Main "HOL-Library.Multiset"
begin

section \<open>Values and messages (types/message.ts)\<close>

text \<open>
  Values of TypeScript type \<open>unknown\<close> that travel through the runtime (tool
  arguments, tool results, entries of the shared key/value store) are JSON values.
  A JavaScript object and a JavaScript \<open>Map\<close> are both association lists in
  insertion order; their keys are pairwise distinct.
\<close>

datatype json =
    JNull
  | JBool bool
  | JNum rat
  | JStr string
  | JArr "json list"
  | JObj "(string \<times> json) list"

record tool_call =
  tc_id :: string
  tc_name :: string
  tc_arguments :: json

text \<open>
  \<open>Message = SystemMessage | UserMessage | AssistantMessage | ToolMessage\<close>.
  An assistant message carries \<open>content: string | null\<close> and optional
  \<open>toolCalls\<close>; a tool message carries \<open>toolCallId\<close> and \<open>content\<close>.
  The optional \<open>id\<close> and \<open>timestamp\<close> of \<open>BaseMessage\<close> are never read
  by the code modelled here and are left out.
\<close>

datatype message =
    System string
  | User string
  | Assistant "string option" "tool_call list option"
  | Tool string string

section \<open>JavaScript Map and object operations\<close>

text \<open>\<open>Map.prototype.set\<close>: an existing key keeps its position, a new key goes last.\<close>

fun map_set :: "'k \<Rightarrow> 'v \<Rightarrow> ('k \<times> 'v) list \<Rightarrow> ('k \<times> 'v) list" where
  "map_set k v [] = [(k, v)]"
| "map_set k v (p # ps) = (if fst p = k then (k, v) # ps else p # map_set k v ps)"

text \<open>\<open>Map.prototype.get\<close>, with \<open>None\<close> for \<open>undefined\<close>.\<close>

definition map_get :: "('k \<times> 'v) list \<Rightarrow> 'k \<Rightarrow> 'v option" where
  "map_get m k = map_of m k"

text \<open>
  \<open>new Map(entries)\<close>, \<open>Object.fromEntries(entries)\<close> and a \<open>forEach\<close> that
  sets every entry: the entries are stored one by one, in order.
\<close>

definition fromEntries :: "('k \<times> 'v) list \<Rightarrow> ('k \<times> 'v) list" where
  "fromEntries es = foldl (\<lambda>m (k, v). map_set k v m) [] es"

section \<open>Strings and numbers\<close>

text \<open>Decimal rendering of a number inside a template literal.\<close>

function show_nat :: "nat \<Rightarrow> string" where
  "show_nat n =
     (if n < 10 then [''0123456789'' ! n]
      else show_nat (n div 10) @ [''0123456789'' ! (n mod 10)])"
  by pat_completeness auto
termination
  by (relation "measure (\<lambda>n. n)") auto

declare show_nat.simps [simp del]

definition show_int :: "int \<Rightarrow> string" where
  "show_int i = (if i < 0 then ''-'' @ show_nat (nat (- i)) else show_nat (nat i))"

text \<open>\<open>Array.prototype.join\<close> on an array of strings.\<close>

fun join :: "string \<Rightarrow> string list \<Rightarrow> string" where
  "join sep [] = []"
| "join sep [x] = x"
| "join sep (x # y # ys) = x @ sep @ join sep (y # ys)"

section \<open>Validation utilities (validation.ts)\<close>

text \<open>
  \<open>validateInput(input, options)\<close> returns \<open>{valid, error?}\<close>. The argument is
  typed \<open>string\<close> but tested with \<open>typeof\<close> at run time, so the model takes any
  value. \<open>length\<close> counts the characters of the model string.
\<close>

definition validateInput :: "json \<Rightarrow> int option \<Rightarrow> bool \<times> string option" where
  "validateInput input maxLength_opt =
     (let maxLength = (case maxLength_opt of None \<Rightarrow> 100000 | Some n \<Rightarrow> n)
      in case input of
           JStr s \<Rightarrow>
             if length s = 0 then (False, Some ''Input cannot be empty'')
             else if int (length s) > maxLength
               then (False, Some (''Input exceeds maximum length of '' @ show_int maxLength @ '' characters''))
             else (True, None)
         | _ \<Rightarrow> (False, Some ''Input must be a string''))"

text \<open>
  The schema of one property (\<open>PropertySchema\<close>) and of a tool's parameter object
  (\<open>JsonSchema\<close>, types/tool.ts).
\<close>

datatype PropertySchema =
  PropertySchema
    (p_type: "string option")
    (p_enum: "json list option")
    (p_minimum: "rat option")
    (p_maximum: "rat option")
    (p_minLength: "rat option")
    (p_maxLength: "rat option")
    (p_pattern: "string option")
    (p_items: "PropertySchema option")

record JsonSchema =
  properties :: "(string \<times> PropertySchema) list option"
  required :: "string list option"
  additionalProperties :: "bool option"

text \<open>
  The validator collects message strings; the model keeps one constructor per message
  template, with the values the template interpolates.
\<close>

datatype validation_error =
    ExpectedObject
  | MissingRequired string
  | TypeMismatch string string string
  | NotInEnum string
  | BelowMinimum string rat
  | AboveMaximum string rat
  | TooShort string rat
  | TooLong string rat
  | PatternMismatch string string
  | UnexpectedProperty string

fun getJsonType :: "json \<Rightarrow> string" where
  "getJsonType JNull = ''null''"
| "getJsonType (JArr _) = ''array''"
| "getJsonType (JBool _) = ''boolean''"
| "getJsonType (JNum _) = ''number''"
| "getJsonType (JStr _) = ''string''"
| "getJsonType (JObj _) = ''object''"

text \<open>\<open>Number.isInteger(value)\<close>.\<close>

fun isInteger :: "json \<Rightarrow> bool" where
  "isInteger (JNum r) = (r = of_int \<lfloor>r\<rfloor>)"
| "isInteger _ = False"

text \<open>
  \<open>schema.enum.includes(value)\<close> compares primitives by value and objects and
  arrays by identity; a freshly parsed argument object is identical to no schema
  constant.
\<close>

fun enum_includes :: "json list \<Rightarrow> json \<Rightarrow> bool" where
  "enum_includes es (JArr _) = False"
| "enum_includes es (JObj _) = False"
| "enum_includes es v = (v \<in> set es)"

text \<open>
  \<open>validateProperty(value, schema, path)\<close>. The regular-expression engine is the
  parameter \<open>regex_test pattern s\<close>: \<open>None\<close> when \<open>new RegExp(pattern)\<close> throws,
  otherwise the result of \<open>test\<close>. \<open>validateItems\<close> is the loop over the array
  elements, from index \<open>i\<close>.
\<close>

fun validateProperty ::
      "(string \<Rightarrow> string \<Rightarrow> bool option) \<Rightarrow> json \<Rightarrow> PropertySchema \<Rightarrow> string \<Rightarrow> validation_error list"
  and validateItems ::
      "(string \<Rightarrow> string \<Rightarrow> bool option) \<Rightarrow> json list \<Rightarrow> PropertySchema \<Rightarrow> string \<Rightarrow> nat \<Rightarrow> validation_error list"
where
  "validateProperty regex_test v schema path =
     (let actualType = getJsonType v;
          wrong = (case p_type schema of
                     None \<Rightarrow> None
                   | Some t \<Rightarrow>
                       if t \<noteq> [] \<and> t \<noteq> actualType \<and>
                          \<not> (t = ''integer'' \<and> actualType = ''number'' \<and> isInteger v)
                       then Some t else None)
      in case wrong of
           Some t \<Rightarrow> [TypeMismatch path t actualType]
         | None \<Rightarrow>
             (case p_enum schema of
                None \<Rightarrow> []
              | Some es \<Rightarrow> if enum_includes es v then [] else [NotInEnum path])
             @ (case v of
                  JNum r \<Rightarrow>
                    (case p_minimum schema of
                       None \<Rightarrow> [] | Some lo \<Rightarrow> if r < lo then [BelowMinimum path lo] else [])
                    @ (case p_maximum schema of
                         None \<Rightarrow> [] | Some hi \<Rightarrow> if r > hi then [AboveMaximum path hi] else [])
                | JStr s \<Rightarrow>
                    (case p_minLength schema of
                       None \<Rightarrow> []
                     | Some lo \<Rightarrow> if of_nat (length s) < lo then [TooShort path lo] else [])
                    @ (case p_maxLength schema of
                         None \<Rightarrow> []
                       | Some hi \<Rightarrow> if of_nat (length s) > hi then [TooLong path hi] else [])
                    @ (case p_pattern schema of
                         None \<Rightarrow> []
                       | Some pat \<Rightarrow>
                           if pat = [] then []
                           else (case regex_test pat s of
                                   Some False \<Rightarrow> [PatternMismatch path pat]
                                 | _ \<Rightarrow> []))
                | JArr vs \<Rightarrow>
                    (case p_items schema of
                       None \<Rightarrow> []
                     | Some items \<Rightarrow> validateItems regex_test vs items path 0)
                | _ \<Rightarrow> []))"
| "validateItems regex_test [] items path i = []"
| "validateItems regex_test (x # xs) items path i =
     validateProperty regex_test x items (path @ ''['' @ show_nat i @ '']'')
     @ validateItems regex_test xs items path (Suc i)"

text \<open>
  \<open>validateJsonSchema(value, schema)\<close> returns \<open>{valid, errors}\<close>. Properties
  inherited from \<open>Object.prototype\<close> are not modelled: \<open>key in obj\<close> is membership
  among the object's own keys.
\<close>

definition validateJsonSchema ::
  "(string \<Rightarrow> string \<Rightarrow> bool option) \<Rightarrow> json \<Rightarrow> JsonSchema \<Rightarrow> bool \<times> validation_error list" where
  "validateJsonSchema regex_test v schema =
     (case v of
        JObj obj \<Rightarrow>
          (let errors1 = (case required schema of
                            None \<Rightarrow> []
                          | Some reqs \<Rightarrow>
                              concat (map (\<lambda>field. if field \<in> fst ` set obj then []
                                                   else [MissingRequired field]) reqs));
               errors2 = (case properties schema of
                            None \<Rightarrow> []
                          | Some props \<Rightarrow>
                              concat (map (\<lambda>(key, propSchema).
                                             case map_of obj key of
                                               None \<Rightarrow> []
                                             | Some x \<Rightarrow> validateProperty regex_test x propSchema key)
                                          props));
               errors3 = (case properties schema of
                            None \<Rightarrow> []
                          | Some props \<Rightarrow>
                              if additionalProperties schema = Some False
                              then concat (map (\<lambda>key. if key \<in> fst ` set props then []
                                                      else [UnexpectedProperty key]) (map fst obj))
                              else []);
               errors = errors1 @ errors2 @ errors3
           in (errors = [], errors))
      | _ \<Rightarrow> (False, [ExpectedObject]))"

section \<open>Agent loop (agent.ts)\<close>

text \<open>
  A JavaScript \<open>Error\<close> with its message. The provider and the tools act on the
  outside world; the world is the explicit state \<open>'w\<close>, threaded through every
  \<open>generate\<close> and \<open>execute\<close> call in the order the loop awaits them.
\<close>

datatype error = Error string

datatype finish_reason = Stop | Tool_calls | Length | Error_finish

record Usage =
  promptTokens :: int
  completionTokens :: int
  totalTokens :: int

record GenerateResponse =
  g_message :: message
  g_usage :: "Usage option"
  finishReason :: finish_reason

record 'w Tool =
  t_name :: string
  t_description :: string
  t_parameters :: JsonSchema
  execute :: "json \<Rightarrow> 'w \<Rightarrow> (error + json) \<times> 'w"

text \<open>
  \<open>AgentConfig\<close> (types/agent.ts). \<open>generate\<close> is \<open>config.provider.generate\<close>
  applied to the current message list; the other request fields (\<open>tools\<close>,
  \<open>model\<close>, \<open>temperature\<close>, \<open>maxTokens\<close>) are constants of the configuration.
\<close>

record 'w AgentConfig =
  c_name :: string
  systemPrompt :: string
  generate :: "message list \<Rightarrow> 'w \<Rightarrow> (error + GenerateResponse) \<times> 'w"
  tools :: "'w Tool list option"
  maxIterations :: "int option"
  maxInputLength :: "int option"
  toolTimeout :: "int option"

record AgentState =
  messages :: "message list"
  iteration :: nat
  st_done :: bool

record AgentResult =
  response :: string
  r_messages :: "message list"
  iterations :: nat
  r_usage :: "Usage option"

definition DEFAULT_MAX_ITERATIONS :: int where
  "DEFAULT_MAX_ITERATIONS = 10"

text \<open>
  \<open>executeToolCall(ctx, toolCall, hooks)\<close> for an agent created without hooks.
  \<open>JSON.stringify\<close> is the parameter \<open>stringify\<close>.
\<close>

definition executeToolCall ::
  "(json \<Rightarrow> string) \<Rightarrow> 'w AgentConfig \<Rightarrow> tool_call \<Rightarrow> 'w \<Rightarrow> message \<times> 'w" where
  "executeToolCall stringify config toolCall w =
     (case find (\<lambda>t. t_name t = tc_name toolCall)
                (case tools config of None \<Rightarrow> [] | Some ts \<Rightarrow> ts) of
        None \<Rightarrow>
          (Tool (tc_id toolCall)
                (stringify (JObj [(''error'', JStr (''Tool '' @ [CHR 0x27] @ tc_name toolCall @ [CHR 0x27] @ '' not found''))])),
           w)
      | Some tool \<Rightarrow>
          (case execute tool (tc_arguments toolCall) w of
             (Inr result, w') \<Rightarrow>
               (Tool (tc_id toolCall) (case result of JStr s \<Rightarrow> s | _ \<Rightarrow> stringify result), w')
           | (Inl (Error errorMessage), w') \<Rightarrow>
               (Tool (tc_id toolCall) (stringify (JObj [(''error'', JStr errorMessage)])), w')))"

text \<open>The \<open>for\<close> loop over the tool calls of one assistant message.\<close>

fun executeToolCalls ::
  "(json \<Rightarrow> string) \<Rightarrow> 'w AgentConfig \<Rightarrow> tool_call list \<Rightarrow> AgentState \<Rightarrow> 'w \<Rightarrow> AgentState \<times> 'w" where
  "executeToolCalls stringify config [] st w = (st, w)"
| "executeToolCalls stringify config (toolCall # rest) st w =
     (case executeToolCall stringify config toolCall w of
        (toolResult, w') \<Rightarrow>
          executeToolCalls stringify config rest (st\<lparr> messages := messages st @ [toolResult] \<rparr>) w')"

definition add_usage :: "Usage \<Rightarrow> Usage option \<Rightarrow> Usage" where
  "add_usage acc u =
     (case u of
        None \<Rightarrow> acc
      | Some x \<Rightarrow> \<lparr> promptTokens = promptTokens acc + promptTokens x,
                     completionTokens = completionTokens acc + completionTokens x,
                     totalTokens = totalTokens acc + totalTokens x \<rparr>)"

text \<open>
  One pass through the body of the \<open>while\<close> loop after the cancellation check:
  increment, generate, record usage, push the assistant message, dispatch the tool
  calls or set \<open>done\<close>. A provider error leaves through \<open>Inl\<close>.
\<close>

definition run_iteration ::
  "(json \<Rightarrow> string) \<Rightarrow> 'w AgentConfig \<Rightarrow> AgentState \<times> Usage \<Rightarrow> 'w \<Rightarrow> (error + AgentState \<times> Usage) \<times> 'w" where
  "run_iteration stringify config su w =
     (let st1 = (fst su)\<lparr> iteration := iteration (fst su) + 1 \<rparr>
      in case generate config (messages st1) w of
           (Inl e, w') \<Rightarrow> (Inl e, w')
         | (Inr resp, w') \<Rightarrow>
             (let totalUsage = add_usage (snd su) (g_usage resp);
                  st2 = st1\<lparr> messages := messages st1 @ [g_message resp] \<rparr>
              in if finishReason resp = Tool_calls then
                   (let toolCalls = (case g_message resp of
                                       Assistant _ (Some tcs) \<Rightarrow> tcs
                                     | _ \<Rightarrow> [])
                    in case executeToolCalls stringify config toolCalls st2 w' of
                         (st3, w'') \<Rightarrow> (Inr (st3, totalUsage), w''))
                 else (Inr (st2\<lparr> st_done := True \<rparr>, totalUsage), w')))"

lemma executeToolCalls_iteration:
  "executeToolCalls stringify config tcs st w = (st', w') \<Longrightarrow> iteration st' = iteration st"
  by (induction tcs arbitrary: st w) (auto split: prod.splits)

lemma run_iteration_iteration:
  "run_iteration stringify config su w = (Inr su', w') \<Longrightarrow>
     iteration (fst su') = Suc (iteration (fst su))"
  by (auto simp: run_iteration_def Let_def split: prod.splits sum.splits if_splits
           dest: executeToolCalls_iteration)

text \<open>
  The \<open>while (!state.done && state.iteration < maxIterations)\<close> loop.
  \<open>signal\<close> is \<open>options?.signal\<close>: whether the abort signal has fired in a
  given world.
\<close>

function run_loop ::
  "(json \<Rightarrow> string) \<Rightarrow> 'w AgentConfig \<Rightarrow> ('w \<Rightarrow> bool) option \<Rightarrow> int \<Rightarrow> AgentState \<times> Usage \<Rightarrow> 'w
     \<Rightarrow> (error + AgentState \<times> Usage) \<times> 'w" where
  "run_loop stringify config signal maxIt su w =
     (if \<not> st_done (fst su) \<and> int (iteration (fst su)) < maxIt then
        (if (case signal of None \<Rightarrow> False | Some aborted \<Rightarrow> aborted w)
         then (Inl (Error ''Agent execution aborted''), w)
         else (case run_iteration stringify config su w of
                 (Inl e, w') \<Rightarrow> (Inl e, w')
               | (Inr su', w') \<Rightarrow> run_loop stringify config signal maxIt su' w'))
      else (Inr su, w))"
  by pat_completeness auto
termination
  by (relation "measure (\<lambda>(stringify, config, signal, maxIt, su, w). nat (maxIt - int (iteration (fst su))))")
     (auto dest!: run_iteration_iteration [OF sym])

declare run_loop.simps [simp del]

text \<open>The response computed after the loop, from the last element of the message list.\<close>

definition final_response :: "message list \<Rightarrow> string" where
  "final_response msgs =
     (if msgs = [] then ''''
      else (case last msgs of
              Assistant content _ \<Rightarrow> (case content of None \<Rightarrow> '''' | Some s \<Rightarrow> s)
            | _ \<Rightarrow> ''''))"

definition run ::
  "(json \<Rightarrow> string) \<Rightarrow> 'w AgentConfig \<Rightarrow> string \<Rightarrow> ('w \<Rightarrow> bool) option \<Rightarrow> 'w \<Rightarrow> (error + AgentResult) \<times> 'w" where
  "run stringify config input signal w =
     (let maxIt = (case maxIterations config of None \<Rightarrow> DEFAULT_MAX_ITERATIONS | Some n \<Rightarrow> n);
          state = \<lparr> messages = [System (systemPrompt config), User input],
                    iteration = 0, st_done = False \<rparr>;
          totalUsage = \<lparr> promptTokens = 0, completionTokens = 0, totalTokens = 0 \<rparr>
      in case run_loop stringify config signal maxIt (state, totalUsage) w of
           (Inl e, w') \<Rightarrow> (Inl e, w')
         | (Inr (st, u), w') \<Rightarrow>
             (Inr \<lparr> response = final_response (messages st), r_messages = messages st,
                    iterations = iteration st, r_usage = Some u \<rparr>, w'))"

text \<open>
  The response as the specification words it: the content of the last assistant message
  of the list, or the empty string when there is none or its content is null.
\<close>

fun is_assistant :: "message \<Rightarrow> bool" where
  "is_assistant (Assistant _ _) = True"
| "is_assistant _ = False"

definition last_assistant_content :: "message list \<Rightarrow> string" where
  "last_assistant_content msgs =
     (case rev (filter is_assistant msgs) of
        Assistant (Some s) _ # _ \<Rightarrow> s
      | _ \<Rightarrow> '''')"

section \<open>Shared context (context.ts)\<close>

record ContextConfig =
  initialData :: "(string \<times> json) list option"
  maxHistoryLength :: "int option"
  initialHistory :: "message list option"

text \<open>
  The closure variables of \<open>createContext\<close>: the \<open>data\<close> map, the \<open>history\<close>
  array, the \<open>agentMessages\<close> map and the constant \<open>maxHistory\<close>.
\<close>

record SharedContext =
  data :: "(string \<times> json) list"
  history :: "message list"
  agentMessages :: "(string \<times> message list) list"
  maxHistory :: int

record ContextSnapshot =
  s_data :: "(string \<times> json) list"
  s_history :: "message list"
  s_agentMessages :: "(string \<times> message list) list"
  s_timestamp :: nat

definition createContext :: "ContextConfig option \<Rightarrow> SharedContext" where
  "createContext config =
     \<lparr> data = fromEntries (case Option.bind config initialData of None \<Rightarrow> [] | Some d \<Rightarrow> d),
       history = (case Option.bind config initialHistory of None \<Rightarrow> [] | Some h \<Rightarrow> h),
       agentMessages = [],
       maxHistory = (case Option.bind config maxHistoryLength of None \<Rightarrow> 1000 | Some n \<Rightarrow> n) \<rparr>"


definition ctx_get :: "SharedContext \<Rightarrow> string \<Rightarrow> json option" where
  "ctx_get c key = map_get (data c) key"

definition getHistory :: "SharedContext \<Rightarrow> message list" where
  "getHistory c = history c"

definition getAgentMessages :: "SharedContext \<Rightarrow> string \<Rightarrow> message list" where
  "getAgentMessages c agentId =
     (case map_get (agentMessages c) agentId of None \<Rightarrow> [] | Some ms \<Rightarrow> ms)"

text \<open>
  \<open>addMessage(message, agentId?)\<close>: push, then one \<open>shift\<close> when the length
  exceeds \<open>maxHistory\<close>; the per-agent list is extended when \<open>agentId\<close> is truthy
  (given and not the empty string).
\<close>

definition addMessage :: "message \<Rightarrow> string option \<Rightarrow> SharedContext \<Rightarrow> SharedContext" where
  "addMessage m agentId c =
     (let h = history c @ [m];
          h' = (if int (length h) > maxHistory c then tl h else h);
          am = (case agentId of
                  None \<Rightarrow> agentMessages c
                | Some aid \<Rightarrow>
                    if aid = [] then agentMessages c
                    else map_set aid (getAgentMessages c aid @ [m]) (agentMessages c))
      in c\<lparr> history := h', agentMessages := am \<rparr>)"

text \<open>\<open>snapshot()\<close>; the clock reading \<open>Date.now()\<close> is the parameter \<open>now\<close>.\<close>

definition snapshot :: "SharedContext \<Rightarrow> nat \<Rightarrow> ContextSnapshot" where
  "snapshot c now =
     \<lparr> s_data = fromEntries (data c),
       s_history = history c,
       s_agentMessages = fromEntries (agentMessages c),
       s_timestamp = now \<rparr>"


text \<open>
  \<open>clone()\<close>: a fresh context from the data, the history and the limit; then, for
  every stored message of every agent, \<open>addMessage\<close> on the clone when the clone
  has no message for that agent yet.
\<close>

definition clone_msg :: "string \<Rightarrow> SharedContext \<Rightarrow> message \<Rightarrow> SharedContext" where
  "clone_msg aid cloned msg =
     (if length (getAgentMessages cloned aid) = 0 then addMessage msg (Some aid) cloned
      else cloned)"

definition clone :: "SharedContext \<Rightarrow> SharedContext" where
  "clone c =
     (let cloned = createContext (Some \<lparr> initialData = Some (fromEntries (data c)),
                                        maxHistoryLength = Some (maxHistory c),
                                        initialHistory = Some (history c) \<rparr>)
      in foldl (\<lambda>cl (aid, msgs). foldl (clone_msg aid) cl msgs) cloned (agentMessages c))"

text \<open>Equality of two snapshots up to their timestamps (objects compared by content).\<close>

definition snapshot_equiv :: "ContextSnapshot \<Rightarrow> ContextSnapshot \<Rightarrow> bool" where
  "snapshot_equiv a b \<longleftrightarrow>
     map_of (s_data a) = map_of (s_data b) \<and>
     s_history a = s_history b \<and>
     map_of (s_agentMessages a) = map_of (s_agentMessages b)"

text \<open>A sequence of \<open>addMessage(message, agentId?)\<close> calls, applied in order.\<close>

definition addMessages :: "(message \<times> string option) list \<Rightarrow> SharedContext \<Rightarrow> SharedContext" where
  "addMessages calls c = foldl (\<lambda>c (m, a). addMessage m a c) c calls"

section \<open>Conductor base (conductor/base.ts)\<close>

text \<open>
  An agent role of an ensemble. For a conductor an agent is a black box: \<open>a_run\<close> is
  the outcome of \<open>agent.run(input)\<close>, an \<open>AgentResult\<close> or the error it throws.
\<close>

record AgentRole =
  a_id :: string
  a_role :: "string option"
  a_run :: "string \<Rightarrow> error + AgentResult"

definition findAgent :: "AgentRole list \<Rightarrow> string \<Rightarrow> AgentRole option" where
  "findAgent agents aid = find (\<lambda>a. a_id a = aid) agents"

definition calculateTotalUsage :: "(string \<times> AgentResult) list \<Rightarrow> Usage" where
  "calculateTotalUsage results =
     foldl (\<lambda>acc result. add_usage acc (r_usage result))
           \<lparr> promptTokens = 0, completionTokens = 0, totalTokens = 0 \<rparr> (map snd results)"

record EnsembleResult =
  e_response :: string
  e_agentResults :: "(string \<times> AgentResult) list"
  e_usage :: Usage

definition createEnsembleResult :: "string \<Rightarrow> (string \<times> AgentResult) list \<Rightarrow> EnsembleResult" where
  "createEnsembleResult resp agentResults =
     \<lparr> e_response = resp, e_agentResults = agentResults,
       e_usage = calculateTotalUsage agentResults \<rparr>"

section \<open>Parallel strategy (conductor/strategies/parallel.ts)\<close>

datatype error_mode = Fail_fast | Continue | Retry

datatype merger_type = Concatenate | Summarize | Select_best | Custom

record ResultMerger =
  m_type :: merger_type
  m_summarizer :: "(string \<Rightarrow> error + AgentResult) option"
  m_selector :: "(AgentResult list \<Rightarrow> AgentResult) option"
  m_merge :: "((string \<times> AgentResult) list \<Rightarrow> string) option"
  m_separator :: "string option"

record ParallelConfig =
  p_agents :: "string list option"
  p_merger :: ResultMerger
  p_concurrency :: "int option"
  p_errorMode :: "error_mode option"

definition nl :: string where
  "nl = [CHR 0x0A]"

definition role_label :: "AgentRole list \<Rightarrow> string \<Rightarrow> string" where
  "role_label agents agentId =
     (case findAgent agents agentId of
        None \<Rightarrow> agentId
      | Some agent \<Rightarrow> (case a_role agent of None \<Rightarrow> agentId | Some r \<Rightarrow> r))"

text \<open>
  \<open>mergeResults(results, merger, agents)\<close>. The \<open>results\<close> map is iterated in
  insertion order. The caller's \<open>selector\<close> and \<open>merge\<close> functions are total.
\<close>

definition mergeResults ::
  "(string \<times> AgentResult) list \<Rightarrow> ResultMerger \<Rightarrow> AgentRole list \<Rightarrow> error + string" where
  "mergeResults results merger agents =
     (if length results = 0 then Inr ''''
      else case m_type merger of
        Concatenate \<Rightarrow>
          (let separator = (case m_separator merger of
                              None \<Rightarrow> nl @ nl @ ''---'' @ nl @ nl | Some s \<Rightarrow> s);
               outputs = map (\<lambda>(agentId, result).
                                ''['' @ role_label agents agentId @ '']'' @ nl @ response result)
                             results
           in Inr (join separator outputs))
      | Summarize \<Rightarrow>
          (case m_summarizer merger of
             None \<Rightarrow> Inl (Error ''Summarizer agent required for summarize merger'')
           | Some summarizer_run \<Rightarrow>
               (let summaryInput =
                      join (nl @ nl)
                        (map (\<lambda>(aid, result).
                                ''['' @ role_label agents aid @ '']: '' @ response result)
                             results);
                    prompt = ''Summarize and synthesize the following agent responses:''
                             @ nl @ nl @ summaryInput
                in case summarizer_run prompt of
                     Inl e \<Rightarrow> Inl e
                   | Inr summaryResult \<Rightarrow> Inr (response summaryResult)))
      | Select_best \<Rightarrow>
          (case m_selector merger of
             None \<Rightarrow> Inl (Error ''Selector function required for select-best merger'')
           | Some sel \<Rightarrow> Inr (response (sel (map snd results))))
      | Custom \<Rightarrow>
          (case m_merge merger of
             None \<Rightarrow> Inl (Error ''Merge function required for custom merger'')
           | Some f \<Rightarrow> Inr (f results)))"

text \<open>
  The callback given to \<open>runWithConcurrencyLimit\<close>, applied to the agents in the order
  in which their runs settle: a result is stored under the agent's id, an error is pushed
  to \<open>errors\<close> and, under \<open>fail-fast\<close>, rethrown, which rejects the awaited
  \<open>Promise.race\<close> or \<open>Promise.all\<close> and with it \<open>orchestrate\<close>.
\<close>

fun collect ::
  "error_mode option \<Rightarrow> string \<Rightarrow> AgentRole list \<Rightarrow> (string \<times> AgentResult) list \<times> error list
     \<Rightarrow> error + (string \<times> AgentResult) list \<times> error list" where
  "collect mode input [] st = Inr st"
| "collect mode input (agentRole # rest) st =
     (case a_run agentRole input of
        Inr result \<Rightarrow> collect mode input rest (map_set (a_id agentRole) result (fst st), snd st)
      | Inl err \<Rightarrow>
          if mode = Some Fail_fast then Inl err
          else collect mode input rest (fst st, snd st @ [err]))"

definition agentsToRun :: "ParallelConfig \<Rightarrow> AgentRole list \<Rightarrow> AgentRole list" where
  "agentsToRun config agents =
     List.map_filter (findAgent agents)
       (case p_agents config of None \<Rightarrow> map a_id agents | Some ids \<Rightarrow> ids)"

text \<open>
  \<open>createParallelConductor(config).orchestrate(input, agents)\<close>, without hooks and
  without an abort signal. The scheduler is the parameter \<open>completion\<close>: the indices
  of the agents to run, in the order in which their runs settle. The concurrency limit
  only restricts which orders can occur.
\<close>

definition orchestrate_parallel ::
  "ParallelConfig \<Rightarrow> nat list \<Rightarrow> string \<Rightarrow> AgentRole list \<Rightarrow> error + EnsembleResult" where
  "orchestrate_parallel config completion input agents =
     (let toRun = agentsToRun config agents;
          settled = map (\<lambda>i. toRun ! i) (filter (\<lambda>i. i < length toRun) completion)
      in case collect (p_errorMode config) input settled ([], []) of
           Inl err \<Rightarrow> Inl err
         | Inr (agentResults, errors) \<Rightarrow>
             if length errors > 0 \<and> p_errorMode config \<noteq> Some Continue \<and> length agentResults = 0
             then Inl (hd errors)
             else (case mergeResults agentResults (p_merger config) agents of
                     Inl err \<Rightarrow> Inl err
                   | Inr finalResponse \<Rightarrow> Inr (createEnsembleResult finalResponse agentResults)))"

section \<open>Voting strategy (conductor/strategies/voting.ts)\<close>

record VotingConfig =
  v_voters :: "string list option"
  v_quorum :: "real option"
  v_options :: "string list option"

text \<open>
  The start of \<open>createVotingConductor(config).orchestrate\<close>: the voters are
  determined and the quorum is checked. The result is the voter list, or the error
  thrown by the check.
\<close>

definition check_quorum :: "VotingConfig \<Rightarrow> AgentRole list \<Rightarrow> error + AgentRole list" where
  "check_quorum config agents =
     (let voterIds = (case v_voters config of None \<Rightarrow> map a_id agents | Some ids \<Rightarrow> ids);
          voters = List.map_filter (findAgent agents) voterIds;
          quorum = (case v_quorum config of None \<Rightarrow> 0.5 | Some q \<Rightarrow> q);
          minVoters = \<lceil>real (length voters) * quorum\<rceil>
      in if int (length voters) < minVoters
         then Inl (Error (''Not enough voters. Need '' @ show_int minVoters @ '', have ''
                          @ show_nat (length voters)))
         else Inr voters)"












section \<open>Concrete agents, ensembles and ballots\<close>

text \<open>
  A one-shot agent whose provider answers \<open>Hello!\<close> with finish reason \<open>stop\<close> and
  usage (10, 5, 15). Its world is the log of the message lists the provider was called
  with.
\<close>

definition hello_config :: "message list list AgentConfig" where
  "hello_config =
     \<lparr> c_name = ''greeter'', systemPrompt = ''You greet'',
       generate = (\<lambda>msgs w.
          (Inr \<lparr> g_message = Assistant (Some ''Hello!'') None,
                  g_usage = Some \<lparr> promptTokens = 10, completionTokens = 5, totalTokens = 15 \<rparr>,
                  finishReason = Stop \<rparr>, w @ [msgs])),
       tools = None, maxIterations = None, maxInputLength = None, toolTimeout = None \<rparr>"

text \<open>
  The agent of the test "respects max iterations", with a provider that always asks for
  the tool \<open>loop\<close>; here the assistant message also carries text, and the limit is one
  iteration.
\<close>

definition loop_config :: "unit AgentConfig" where
  "loop_config =
     \<lparr> c_name = ''loop-agent'', systemPrompt = ''You loop forever'',
       generate = (\<lambda>msgs w.
          (Inr \<lparr> g_message = Assistant (Some ''checking'')
                     (Some [\<lparr> tc_id = ''call_1'', tc_name = ''loop'', tc_arguments = JObj [] \<rparr>]),
                  g_usage = None, finishReason = Tool_calls \<rparr>, w)),
       tools = Some [\<lparr> t_name = ''loop'', t_description = ''A tool that loops'',
                        t_parameters = \<lparr> properties = Some [], required = None,
                                         additionalProperties = None \<rparr>,
                        execute = (\<lambda>args w. (Inr (JStr ''looping''), w)) \<rparr>],
       maxIterations = Some 1, maxInputLength = None, toolTimeout = None \<rparr>"

text \<open>
  A weather tool whose schema requires a string \<open>location\<close>. Its world is the log of
  the argument objects \<open>execute\<close> was called with.
\<close>

definition weather_schema :: JsonSchema where
  "weather_schema =
     \<lparr> properties = Some [(''location'',
                            PropertySchema (Some ''string'') None None None None None None None)],
       required = Some [''location''], additionalProperties = None \<rparr>"

definition weather_config :: "json list AgentConfig" where
  "weather_config =
     \<lparr> c_name = ''weather-agent'', systemPrompt = ''You report the weather'',
       generate = (\<lambda>msgs w.
          (Inr \<lparr> g_message = Assistant (Some ''done'') None, g_usage = None,
                  finishReason = Stop \<rparr>, w)),
       tools = Some [\<lparr> t_name = ''get_weather'', t_description = ''Get the weather'',
                        t_parameters = weather_schema,
                        execute = (\<lambda>args w. (Inr (JObj [(''temp'', JNum 72)]), w @ [args])) \<rparr>],
       maxIterations = None, maxInputLength = None, toolTimeout = None \<rparr>"

text \<open>A context with one message recorded for one agent.\<close>

definition hello_context :: SharedContext where
  "hello_context = addMessage (User ''hello'') (Some ''agent1'') (createContext None)"

text \<open>Two agents that fail, two that answer, and parallel configurations over them.\<close>

definition agent_result :: "string \<Rightarrow> AgentResult" where
  "agent_result txt = \<lparr> response = txt, r_messages = [], iterations = 1, r_usage = None \<rparr>"

definition failing_agents :: "AgentRole list" where
  "failing_agents =
     [\<lparr> a_id = ''a'', a_role = None, a_run = (\<lambda>_. Inl (Error ''a is down'')) \<rparr>,
      \<lparr> a_id = ''b'', a_role = None, a_run = (\<lambda>_. Inl (Error ''b is down'')) \<rparr>]"

definition answering_agents :: "AgentRole list" where
  "answering_agents =
     [\<lparr> a_id = ''a'', a_role = Some ''alpha'', a_run = (\<lambda>_. Inr (agent_result ''A'')) \<rparr>,
      \<lparr> a_id = ''b'', a_role = Some ''beta'', a_run = (\<lambda>_. Inr (agent_result ''B'')) \<rparr>]"

definition concatenate_config :: "error_mode option \<Rightarrow> ParallelConfig" where
  "concatenate_config mode =
     \<lparr> p_agents = None,
       p_merger = \<lparr> m_type = Concatenate, m_summarizer = None, m_selector = None,
                    m_merge = None, m_separator = Some '' | '' \<rparr>,
       p_concurrency = None, p_errorMode = mode \<rparr>"

definition counting_merger :: ResultMerger where
  "counting_merger =
     \<lparr> m_type = Custom, m_summarizer = None, m_selector = None,
       m_merge = Some (\<lambda>results. show_nat (length results)), m_separator = None \<rparr>"




section \<open>Properties of the Map and object operations\<close>

lemma map_of_map_set: "map_of (map_set k v m) = (map_of m)(k \<mapsto> v)"
  by (induction m) (auto simp: fun_eq_iff)




section \<open>Properties of the shared context\<close>



lemma addMessage_history:
  "history (addMessage m a c) =
     (if int (length (history c)) + 1 > maxHistory c then tl (history c @ [m]) else history c @ [m])"
  by (simp add: addMessage_def Let_def)

lemma addMessage_maxHistory: "maxHistory (addMessage m a c) = maxHistory c"
  by (simp add: addMessage_def Let_def)

lemma drop_one_snoc:
  "k \<le> length xs \<Longrightarrow> drop 1 (drop k xs @ [m]) = drop (Suc k) (xs @ [m])"
proof -
  assume "k \<le> length xs"
  then have "drop k xs @ [m] = drop k (xs @ [m])" by simp
  then show ?thesis by (simp only: drop_drop) simp
qed

lemma addMessages_trim:
  assumes "int (length (history c)) \<le> maxHistory c"
  shows "maxHistory (addMessages calls c) = maxHistory c \<and>
         history (addMessages calls c) =
           drop (length (history c @ map fst calls) - nat (maxHistory c)) (history c @ map fst calls)"
  using assms
proof (induction calls arbitrary: c rule: rev_induct)
  case Nil
  then show ?case by (simp add: addMessages_def)
next
  case (snoc x calls)
  obtain m a where x: "x = (m, a)" by (cases x)
  let ?c = "addMessages calls c"
  have step: "addMessages (calls @ [x]) c = addMessage m a ?c"
    by (simp add: addMessages_def x)
  from snoc.IH [OF snoc.prems] have mh: "maxHistory ?c = maxHistory c"
    and h: "history ?c = drop (length (history c @ map fst calls) - nat (maxHistory c)) (history c @ map fst calls)"
    by simp_all
  let ?all = "history c @ map fst calls"
  let ?M = "nat (maxHistory c)"
  have M0: "0 \<le> maxHistory c" using snoc.prems by linarith
  have tl_drop1: "\<And>xs::message list. tl xs = drop 1 xs" by (simp add: drop_Suc)
  have hist: "history (addMessages (calls @ [x]) c) =
      drop (length (?all @ [m]) - ?M) (?all @ [m])"
  proof (cases "length ?all < ?M")
    case True
    then have "history ?c = ?all" by (simp add: h)
    moreover from True have "\<not> maxHistory c < int (length ?all) + 1" by linarith
    ultimately show ?thesis using True
      by (simp add: step addMessage_history mh)
  next
    case False
    then have len: "length (history ?c) = ?M" by (simp add: h)
    have gt: "maxHistory c < int (length (history ?c)) + 1" using M0 by (simp add: len)
    have "history (addMessage m a ?c) = drop 1 (history ?c @ [m])"
      using gt by (simp add: addMessage_history mh tl_drop1)
    also have "\<dots> = drop (Suc (length ?all - ?M)) (?all @ [m])"
      unfolding h by (rule drop_one_snoc) simp
    also have "Suc (length ?all - ?M) = length (?all @ [m]) - ?M"
      using False by simp
    finally show ?thesis by (simp only: step)
  qed
  have "maxHistory (addMessages (calls @ [x]) c) = maxHistory c"
    by (simp only: step addMessage_maxHistory mh)
  with hist show ?case by (simp add: x)
qed

text \<open>
  C8. A context created with a history limit and an initial history no longer than the
  limit keeps, after any sequence of \<open>addMessage\<close> calls, at most \<open>maxHistory\<close>
  messages, and they are exactly the last ones of the initial history followed by the
  appended messages, in insertion order.
\<close>

theorem history_trim_fifo:
  assumes "c0 = createContext cfg" and "int (length (history c0)) \<le> maxHistory c0"
  shows "int (length (history (addMessages calls c0))) \<le> maxHistory c0 \<and>
         history (addMessages calls c0) =
           drop (length (history c0 @ map fst calls) - nat (maxHistory c0))
                (history c0 @ map fst calls)"
proof -
  from addMessages_trim [OF assms(2), of calls]
  have h: "history (addMessages calls c0) =
           drop (length (history c0 @ map fst calls) - nat (maxHistory c0))
                (history c0 @ map fst calls)" by simp
  have "0 \<le> maxHistory c0" using assms(2) by linarith
  then have b: "int (length (history (addMessages calls c0))) \<le> maxHistory c0"
    unfolding h by simp
  show ?thesis
  proof (intro conjI)
    show "int (length (history (addMessages calls c0))) \<le> maxHistory c0" by (rule b)
    show "history (addMessages calls c0) =
           drop (length (history c0 @ map fst calls) - nat (maxHistory c0))
                (history c0 @ map fst calls)" by (rule h)
  qed
qed

theorem history_trim_fifo_witness:
  "history (addMessages [(User ''1'', None), (User ''2'', Some ''a''), (User ''3'', None)]
      (createContext (Some \<lparr> initialData = None, maxHistoryLength = Some 2,
                              initialHistory = Some [System ''0''] \<rparr>)))
   = [User ''2'', User ''3'']"
  using history_trim_fifo [of
      "createContext (Some \<lparr> initialData = None, maxHistoryLength = Some 2,
                              initialHistory = Some [System ''0''] \<rparr>)"
      "Some \<lparr> initialData = None, maxHistoryLength = Some 2, initialHistory = Some [System ''0''] \<rparr>"
      "[(User ''1'', None), (User ''2'', Some ''a''), (User ''3'', None)]"]
  by (simp add: createContext_def)

text \<open>
  C6. \<open>clone()\<close> is not a copy when an agent has messages: the clone of a context
  with one message \<open>hello\<close> recorded for \<open>agent1\<close> holds that message twice in its
  history, and of two messages recorded for an agent the clone keeps the first only.
\<close>

theorem clone_is_not_a_copy:
  "s_history (snapshot hello_context now) = [User ''hello''] \<and>
   s_history (snapshot (clone hello_context) now) = [User ''hello'', User ''hello''] \<and>
   \<not> snapshot_equiv (snapshot (clone hello_context) now) (snapshot hello_context now) \<and>
   getAgentMessages (addMessage (User ''again'') (Some ''agent1'') hello_context) ''agent1'' =
     [User ''hello'', User ''again''] \<and>
   getAgentMessages (clone (addMessage (User ''again'') (Some ''agent1'') hello_context)) ''agent1'' =
     [User ''hello'']"
  by (simp add: hello_context_def clone_def clone_msg_def addMessage_def createContext_def
        snapshot_def snapshot_equiv_def getAgentMessages_def map_get_def fromEntries_def Let_def)


section \<open>Properties of the agent loop\<close>

lemma final_response_last_assistant:
  "final_response msgs =
     (if msgs \<noteq> [] \<and> is_assistant (last msgs) then last_assistant_content msgs else '''')"
proof (cases msgs rule: rev_cases)
  case Nil
  then show ?thesis by (simp add: final_response_def)
next
  case (snoc xs x)
  then show ?thesis
    by (cases x) (auto simp: final_response_def last_assistant_content_def split: option.splits)
qed

lemma run_result:
  assumes "run stringify config input signal w = (Inr r, w')"
  shows "response r = final_response (r_messages r)"
  using assms by (auto simp: run_def Let_def split: prod.splits sum.splits)

lemma hello_run:
  "run stringify hello_config input None [] =
     (Inr \<lparr> response = ''Hello!'',
            r_messages = [System ''You greet'', User input, Assistant (Some ''Hello!'') None],
            iterations = 1,
            r_usage = Some \<lparr> promptTokens = 10, completionTokens = 5, totalTokens = 15 \<rparr> \<rparr>,
      [[System ''You greet'', User input]])"
  by (simp add: run_def hello_config_def run_loop.simps run_iteration_def
        add_usage_def final_response_def Let_def DEFAULT_MAX_ITERATIONS_def)

lemma loop_run:
  "run stringify loop_config ''Loop!'' None () =
     (Inr \<lparr> response = '''',
            r_messages = [System ''You loop forever'', User ''Loop!'',
                          Assistant (Some ''checking'')
                            (Some [\<lparr> tc_id = ''call_1'', tc_name = ''loop'', tc_arguments = JObj [] \<rparr>]),
                          Tool ''call_1'' ''looping''],
            iterations = 1,
            r_usage = Some \<lparr> promptTokens = 0, completionTokens = 0, totalTokens = 0 \<rparr> \<rparr>, ())"
  by (simp add: run_def loop_config_def run_loop.simps run_iteration_def executeToolCall_def
        add_usage_def final_response_def Let_def)

text \<open>
  C1. \<open>run\<close> does not validate its input: on the empty string, which
  \<open>validateInput\<close> rejects, the provider is called once with the empty user message
  and \<open>run\<close> returns its answer.
\<close>

theorem run_accepts_empty_input:
  "validateInput (JStr '''') (maxInputLength hello_config) = (False, Some ''Input cannot be empty'') \<and>
   run stringify hello_config '''' None [] =
     (Inr \<lparr> response = ''Hello!'',
            r_messages = [System ''You greet'', User '''', Assistant (Some ''Hello!'') None],
            iterations = 1,
            r_usage = Some \<lparr> promptTokens = 10, completionTokens = 5, totalTokens = 15 \<rparr> \<rparr>,
      [[System ''You greet'', User '''']])"
  by (simp add: hello_run) (simp add: validateInput_def hello_config_def)

text \<open>
  C3, as claimed (the response is the content of the last assistant message of the final
  list, also when the run ends at \<open>maxIterations\<close> after tool results), fails: with a
  limit of one iteration the list ends with a tool message, the response is empty, and
  the last assistant message says \<open>checking\<close>.
\<close>

theorem response_counterexample:
  "fst (run (\<lambda>_. ''{}'') loop_config ''Loop!'' None ()) =
     Inr \<lparr> response = '''',
           r_messages = [System ''You loop forever'', User ''Loop!'',
                         Assistant (Some ''checking'')
                           (Some [\<lparr> tc_id = ''call_1'', tc_name = ''loop'', tc_arguments = JObj [] \<rparr>]),
                         Tool ''call_1'' ''looping''],
           iterations = 1,
           r_usage = Some \<lparr> promptTokens = 0, completionTokens = 0, totalTokens = 0 \<rparr> \<rparr> \<and>
   last_assistant_content
     [System ''You loop forever'', User ''Loop!'',
      Assistant (Some ''checking'')
        (Some [\<lparr> tc_id = ''call_1'', tc_name = ''loop'', tc_arguments = JObj [] \<rparr>]),
      Tool ''call_1'' ''looping''] = ''checking'' \<and>
   ''checking'' \<noteq> ''''"
  by (simp add: loop_run last_assistant_content_def)

text \<open>
  C3, amended. For every run that returns an \<open>AgentResult\<close>, the response is the
  content of the last assistant message of the final list when the final message of the
  list is an assistant message, and the empty string otherwise (in particular when the
  list ends with tool results).
\<close>

theorem response_is_final_assistant_message:
  assumes "run stringify config input signal w = (Inr r, w')"
  shows "response r =
     (if r_messages r \<noteq> [] \<and> is_assistant (last (r_messages r))
      then last_assistant_content (r_messages r) else '''')"
  using run_result [OF assms] by (simp only: final_response_last_assistant)

theorem response_is_final_assistant_message_witness:
  "run (\<lambda>_. ''{}'') hello_config ''hi'' None [] =
     (Inr \<lparr> response = ''Hello!'',
            r_messages = [System ''You greet'', User ''hi'', Assistant (Some ''Hello!'') None],
            iterations = 1,
            r_usage = Some \<lparr> promptTokens = 10, completionTokens = 5, totalTokens = 15 \<rparr> \<rparr>,
      [[System ''You greet'', User ''hi'']]) \<and>
   ''Hello!'' =
     last_assistant_content [System ''You greet'', User ''hi'', Assistant (Some ''Hello!'') None]"
  using response_is_final_assistant_message [OF hello_run [of "\<lambda>_. ''{}''" "''hi''"]]
  by (simp add: hello_run)

text \<open>
  C4. \<open>executeToolCall\<close> does not validate the arguments: for the weather tool, whose
  schema requires \<open>location\<close>, and the argument object \<open>{}\<close>, which
  \<open>validateJsonSchema\<close> rejects, \<open>execute\<close> is called with \<open>{}\<close> and its result
  becomes the tool message.
\<close>

theorem executeToolCall_skips_validation:
  "validateJsonSchema regex_test (JObj []) weather_schema = (False, [MissingRequired ''location'']) \<and>
   executeToolCall stringify weather_config
       \<lparr> tc_id = ''c1'', tc_name = ''get_weather'', tc_arguments = JObj [] \<rparr> [] =
     (Tool ''c1'' (stringify (JObj [(''temp'', JNum 72)])), [JObj []])"
  by (simp add: validateJsonSchema_def weather_schema_def executeToolCall_def weather_config_def)

section \<open>Properties of the parallel strategy\<close>

lemma collect_all_fail:
  assumes "\<forall>a \<in> set as. isl (a_run a input)"
  shows "collect mode input as st =
     (if mode = Some Fail_fast \<and> as \<noteq> [] then Inl (projl (a_run (hd as) input))
      else Inr (fst st, snd st @ map (\<lambda>a. projl (a_run a input)) as))"
  using assms
proof (induction as arbitrary: st)
  case Nil
  then show ?case by simp
next
  case (Cons a as)
  from Cons.prems obtain e where e: "a_run a input = Inl e" by (cases "a_run a input") auto
  from Cons.prems have rest: "\<forall>a \<in> set as. isl (a_run a input)" by simp
  show ?case
  proof (cases "mode = Some Fail_fast")
    case True
    then show ?thesis by (simp add: e)
  next
    case False
    then show ?thesis using Cons.IH [OF rest] by (simp add: e)
  qed
qed

lemma mergeResults_empty: "mergeResults [] merger agents = Inr ''''"
  by (simp add: mergeResults_def)

text \<open>
  C2, as claimed (when every selected agent fails the first error is raised whatever the
  error mode), fails under \<open>continue\<close>: both agents fail and the conductor returns an
  ensemble result with the empty response.
\<close>

theorem parallel_continue_counterexample:
  "a_run (failing_agents ! 0) ''x'' = Inl (Error ''a is down'') \<and>
   a_run (failing_agents ! 1) ''x'' = Inl (Error ''b is down'') \<and>
   orchestrate_parallel (concatenate_config (Some Continue)) [0, 1] ''x'' failing_agents =
     Inr \<lparr> e_response = '''', e_agentResults = [],
           e_usage = \<lparr> promptTokens = 0, completionTokens = 0, totalTokens = 0 \<rparr> \<rparr>"
  by (simp add: failing_agents_def concatenate_config_def orchestrate_parallel_def agentsToRun_def
        List.map_filter_def findAgent_def mergeResults_def createEnsembleResult_def
        calculateTotalUsage_def)

text \<open>
  C2, amended. When at least one agent is selected and the run of every selected agent
  raises an error, the conductor raises the error of the agent whose run settles first,
  unless the error mode is \<open>continue\<close>; under \<open>continue\<close> it returns an ensemble
  result with the empty response and no agent results.
\<close>

theorem parallel_all_fail:
  assumes sel: "agentsToRun config agents \<noteq> []"
    and fail: "\<forall>a \<in> set (agentsToRun config agents). isl (a_run a input)"
    and perm: "distinct completion" "set completion = {..<length (agentsToRun config agents)}"
  shows "orchestrate_parallel config completion input agents =
     (if p_errorMode config = Some Continue then Inr (createEnsembleResult '''' [])
      else Inl (projl (a_run (agentsToRun config agents ! hd completion) input)))"
proof -
  let ?toRun = "agentsToRun config agents"
  let ?settled = "map (\<lambda>i. ?toRun ! i) (filter (\<lambda>i. i < length ?toRun) completion)"
  have bound: "\<forall>i \<in> set completion. i < length ?toRun"
    by (simp only: perm(2) lessThan_iff) blast
  have all: "filter (\<lambda>i. i < length ?toRun) completion = completion"
    using bound by (rule filter_True)
  have "0 \<in> set completion"
    using sel by (simp add: perm(2))
  then have ne: "completion \<noteq> []" by (cases completion) simp_all
  then have hdc: "hd completion \<in> set completion" by (rule hd_in_set)
  have settled: "?settled = map (\<lambda>i. ?toRun ! i) completion"
    by (simp only: all)
  have sne: "?settled \<noteq> []" using ne by (simp add: settled)
  have hds: "hd ?settled = ?toRun ! hd completion"
    using ne by (simp add: settled hd_map)
  have sf: "\<forall>a \<in> set ?settled. isl (a_run a input)"
  proof
    fix a assume "a \<in> set ?settled"
    then obtain i where i: "i \<in> set completion" "a = ?toRun ! i"
      unfolding settled by auto
    from i(1) bound have "i < length ?toRun" by blast
    then have "a \<in> set ?toRun" unfolding i(2) by (rule nth_mem)
    with fail show "isl (a_run a input)" by blast
  qed
  have coll: "collect (p_errorMode config) input ?settled ([], []) =
     (if p_errorMode config = Some Fail_fast then Inl (projl (a_run (?toRun ! hd completion) input))
      else Inr ([], map (\<lambda>a. projl (a_run a input)) ?settled))"
    using sne by (simp add: collect_all_fail [OF sf] hds)
  have hde: "hd (map (\<lambda>a. projl (a_run a input)) ?settled) =
             projl (a_run (?toRun ! hd completion) input)"
    using sne hds by (simp add: hd_map)
  have lene: "length (map (\<lambda>a. projl (a_run a input)) ?settled) > 0"
    using sne by simp
  show ?thesis
  proof (cases "p_errorMode config = Some Fail_fast")
    case True
    then show ?thesis
      unfolding orchestrate_parallel_def Let_def coll by simp
  next
    case False
    note nff = False
    show ?thesis
    proof (cases "p_errorMode config = Some Continue")
      case True
      then show ?thesis
        unfolding orchestrate_parallel_def Let_def coll
        by (simp add: mergeResults_empty)
    next
      case False
      then show ?thesis
        unfolding orchestrate_parallel_def Let_def coll
        using nff lene hde by simp
    qed
  qed
qed

lemma failing_agentsToRun: "agentsToRun (concatenate_config mode) failing_agents = failing_agents"
  by (simp add: failing_agents_def concatenate_config_def agentsToRun_def
        List.map_filter_def findAgent_def)

theorem parallel_all_fail_witness:
  "orchestrate_parallel (concatenate_config (Some Retry)) [1, 0] ''x'' failing_agents =
     Inl (Error ''b is down'') \<and>
   orchestrate_parallel (concatenate_config (Some Fail_fast)) [1, 0] ''x'' failing_agents =
     Inl (Error ''b is down'')"
proof -
  have sel: "agentsToRun (concatenate_config mode) failing_agents \<noteq> []" for mode
    by (simp add: failing_agentsToRun) (simp add: failing_agents_def)
  have fail: "\<forall>a \<in> set (agentsToRun (concatenate_config mode) failing_agents). isl (a_run a ''x'')" for mode
    by (simp add: failing_agentsToRun) (simp add: failing_agents_def)
  have d: "distinct [1, 0::nat]" by simp
  have s: "set [1, 0::nat] = {..<length (agentsToRun (concatenate_config mode) failing_agents)}" for mode
    by (simp add: failing_agentsToRun) (auto simp: failing_agents_def)
  show ?thesis
    using parallel_all_fail [OF sel fail d s, of "Some Retry"]
          parallel_all_fail [OF sel fail d s, of "Some Fail_fast"]
    by (simp add: failing_agentsToRun) (simp add: failing_agents_def concatenate_config_def)
qed


lemma answering_agentsToRun:
  "agentsToRun (concatenate_config mode) answering_agents = answering_agents"
  by (simp add: answering_agents_def concatenate_config_def agentsToRun_def
        List.map_filter_def findAgent_def)

lemma mset_eq_short:
  assumes "mset r1 = mset r2" and "length r1 \<le> 1"
  shows "r1 = r2"
proof (cases r1)
  case Nil
  then show ?thesis using assms(1) by simp
next
  case (Cons x xs)
  then have "xs = []" using assms(2) by simp
  then have "mset r2 = {#x#}" using assms(1) Cons by simp
  then have "r2 = [x]" by (simp add: mset_single_iff_right)
  then show ?thesis using Cons \<open>xs = []\<close> by simp
qed

lemma merge_select_best:
  assumes "m_type merger = Select_best" and "m_selector merger = Some sel"
    and inv: "\<forall>xs ys. mset xs = mset ys \<longrightarrow> sel xs = sel ys"
    and same: "mset r1 = mset r2"
  shows "mergeResults r1 merger agents = mergeResults r2 merger agents"
proof -
  have len: "length r1 = length r2" using same by (rule mset_eq_length)
  have "mset (map snd r1) = mset (map snd r2)" using same by (metis mset_map)
  then have "sel (map snd r1) = sel (map snd r2)" using inv by blast
  then show ?thesis using assms(1,2) len by (simp add: mergeResults_def)
qed

lemma merge_custom:
  assumes "m_type merger = Custom" and "m_merge merger = Some f"
    and inv: "\<forall>xs ys. mset xs = mset ys \<longrightarrow> f xs = f ys"
    and same: "mset r1 = mset r2"
  shows "mergeResults r1 merger agents = mergeResults r2 merger agents"
proof -
  have len: "length r1 = length r2" using same by (rule mset_eq_length)
  have "f r1 = f r2" using inv same by blast
  then show ?thesis using assms(1,2) len by (simp add: mergeResults_def)
qed

text \<open>
  C9, as claimed (the merged output does not depend on the order in which the result
  mapping was populated), fails for the concatenate merger: the two agents answer
  \<open>A\<close> and \<open>B\<close>, the two completion orders give result mappings with the same
  associations, and the merged responses differ.
\<close>

theorem merge_order_counterexample:
  "orchestrate_parallel (concatenate_config None) [0, 1] ''x'' answering_agents =
     Inr (createEnsembleResult (''[alpha]'' @ nl @ ''A | [beta]'' @ nl @ ''B'')
            [(''a'', agent_result ''A''), (''b'', agent_result ''B'')]) \<and>
   orchestrate_parallel (concatenate_config None) [1, 0] ''x'' answering_agents =
     Inr (createEnsembleResult (''[beta]'' @ nl @ ''B | [alpha]'' @ nl @ ''A'')
            [(''b'', agent_result ''B''), (''a'', agent_result ''A'')]) \<and>
   map_of [(''a'', agent_result ''A''), (''b'', agent_result ''B'')] =
     map_of [(''b'', agent_result ''B''), (''a'', agent_result ''A'')] \<and>
   ''[alpha]'' @ nl @ ''A | [beta]'' @ nl @ ''B'' \<noteq> ''[beta]'' @ nl @ ''B | [alpha]'' @ nl @ ''A''"
proof (intro conjI)
  show "orchestrate_parallel (concatenate_config None) [0, 1] ''x'' answering_agents =
     Inr (createEnsembleResult (''[alpha]'' @ nl @ ''A | [beta]'' @ nl @ ''B'')
            [(''a'', agent_result ''A''), (''b'', agent_result ''B'')])"
    unfolding orchestrate_parallel_def answering_agentsToRun
    by (simp add: answering_agents_def concatenate_config_def mergeResults_def role_label_def
          findAgent_def agent_result_def)
  show "orchestrate_parallel (concatenate_config None) [1, 0] ''x'' answering_agents =
     Inr (createEnsembleResult (''[beta]'' @ nl @ ''B | [alpha]'' @ nl @ ''A'')
            [(''b'', agent_result ''B''), (''a'', agent_result ''A'')])"
    unfolding orchestrate_parallel_def answering_agentsToRun
    by (simp add: answering_agents_def concatenate_config_def mergeResults_def role_label_def
          findAgent_def agent_result_def)
  show "map_of [(''a'', agent_result ''A''), (''b'', agent_result ''B'')] =
     map_of [(''b'', agent_result ''B''), (''a'', agent_result ''A'')]"
    by (auto simp: fun_eq_iff)
  show "''[alpha]'' @ nl @ ''A | [beta]'' @ nl @ ''B'' \<noteq> ''[beta]'' @ nl @ ''B | [alpha]'' @ nl @ ''A''"
    by simp
qed

text \<open>
  C9, amended. The merged output is a function of the entries of the result mapping in
  insertion order and of the merger configuration. Two result mappings with the same
  associations give the same merged output when the mapping has at most one entry, or
  when the merger is select-best or custom and the caller's selector or merge function
  does not depend on the order of its argument. (Concatenate and summarize list the
  entries in insertion order.)
\<close>

theorem merge_order_insensitive:
  assumes same: "mset r1 = mset r2"
    and cases: "length r1 \<le> 1 \<or>
       (m_type merger = Select_best \<and> m_selector merger = Some sel \<and>
          (\<forall>xs ys. mset xs = mset ys \<longrightarrow> sel xs = sel ys)) \<or>
       (m_type merger = Custom \<and> m_merge merger = Some f \<and>
          (\<forall>xs ys. mset xs = mset ys \<longrightarrow> f xs = f ys))"
  shows "mergeResults r1 merger agents = mergeResults r2 merger agents"
  using cases
proof (elim disjE conjE)
  assume "length r1 \<le> 1"
  with same have "r1 = r2" by (rule mset_eq_short)
  then show ?thesis by simp
next
  assume "m_type merger = Select_best" "m_selector merger = Some sel"
    "\<forall>xs ys. mset xs = mset ys \<longrightarrow> sel xs = sel ys"
  then show ?thesis using same by (rule merge_select_best)
next
  assume "m_type merger = Custom" "m_merge merger = Some f"
    "\<forall>xs ys. mset xs = mset ys \<longrightarrow> f xs = f ys"
  then show ?thesis using same by (rule merge_custom)
qed

theorem merge_order_insensitive_witness:
  "mergeResults [(''a'', agent_result ''A''), (''b'', agent_result ''B'')] counting_merger answering_agents =
   mergeResults [(''b'', agent_result ''B''), (''a'', agent_result ''A'')] counting_merger answering_agents"
proof -
  have same: "mset [(''a'', agent_result ''A''), (''b'', agent_result ''B'')] =
              mset [(''b'', agent_result ''B''), (''a'', agent_result ''A'')]"
    by simp
  have inv: "\<forall>xs ys :: (string \<times> AgentResult) list.
               mset xs = mset ys \<longrightarrow> show_nat (length xs) = show_nat (length ys)"
    by (auto dest: mset_eq_length)
  have "m_type counting_merger = Custom \<and>
        m_merge counting_merger = Some (\<lambda>results. show_nat (length results)) \<and>
        (\<forall>xs ys :: (string \<times> AgentResult) list.
           mset xs = mset ys \<longrightarrow> show_nat (length xs) = show_nat (length ys))"
    by (intro conjI inv) (simp_all add: counting_merger_def)
  then show ?thesis
    using merge_order_insensitive [OF same, of counting_merger undefined
            "\<lambda>results. show_nat (length results)" answering_agents]
    by blast
qed

section \<open>Properties of the voting strategy\<close>

text \<open>
  C10. When the configured quorum is at most 1 (or absent, so 0.5), the quorum check
  cannot fail: the number of found voters is compared with the ceiling of that same
  number times the quorum.
\<close>

theorem quorum_check_cannot_fail:
  assumes "case v_quorum config of None \<Rightarrow> True | Some q \<Rightarrow> q \<le> 1"
  shows "\<exists>voters. check_quorum config agents = Inr voters"
proof -
  define n where "n = length (List.map_filter (findAgent agents)
      (case v_voters config of None \<Rightarrow> map a_id agents | Some ids \<Rightarrow> ids))"
  define q where "q = (case v_quorum config of None \<Rightarrow> (0.5::real) | Some q \<Rightarrow> q)"
  have "q \<le> 1" using assms by (auto simp: q_def split: option.splits)
  then have "real n * q \<le> real n" by (simp add: mult_left_le)
  then have "\<lceil>real n * q\<rceil> \<le> int n" by (simp add: ceiling_le_iff)
  then have "\<not> int n < \<lceil>real n * q\<rceil>" by simp
  then show ?thesis
    by (simp add: check_quorum_def Let_def n_def q_def)
qed

theorem quorum_check_cannot_fail_witness:
  "check_quorum \<lparr> v_voters = Some [''a'', ''x'', ''y'', ''z''], v_quorum = Some 1, v_options = None \<rparr>
      answering_agents
   = Inr [answering_agents ! 0]"
  using quorum_check_cannot_fail [of
     "\<lparr> v_voters = Some [''a'', ''x'', ''y'', ''z''], v_quorum = Some 1, v_options = None \<rparr>"
     answering_agents]
  by (simp add: check_quorum_def Let_def List.map_filter_def findAgent_def answering_agents_def)















end
